theory Spec2Isabelle
  imports Complex_Main
begin

section \<open>JavaScript numbers\<close>

text \<open>
  The indicator library computes on JavaScript \<open>number\<close>s. They are modelled as the reals
  extended by the three special values the code depends on: the undefined sentinel
  \<open>NaN\<close> and the two infinities that a division by zero produces. Arithmetic on finite
  values is exact: rounding and overflow of the 64-bit format are not modelled, and there
  is one zero, which divisions treat as the positive zero (every divisor in the code
  modelled here is a period, a period plus one, the smoothed average loss or
  \<open>1 + rs\<close>, none of which can be the negative zero).
\<close>

datatype jsnum = NaN | PInf | NInf | Fin real

fun js_isNaN :: "jsnum \<Rightarrow> bool" where
  "js_isNaN NaN = True"
| "js_isNaN _ = False"

fun js_neg :: "jsnum \<Rightarrow> jsnum" where
  "js_neg NaN = NaN"
| "js_neg PInf = NInf"
| "js_neg NInf = PInf"
| "js_neg (Fin a) = Fin (- a)"

fun js_add :: "jsnum \<Rightarrow> jsnum \<Rightarrow> jsnum" where
  "js_add NaN _ = NaN"
| "js_add _ NaN = NaN"
| "js_add PInf NInf = NaN"
| "js_add NInf PInf = NaN"
| "js_add PInf _ = PInf"
| "js_add _ PInf = PInf"
| "js_add NInf _ = NInf"
| "js_add _ NInf = NInf"
| "js_add (Fin a) (Fin b) = Fin (a + b)"

definition js_sub :: "jsnum \<Rightarrow> jsnum \<Rightarrow> jsnum" where
  "js_sub a b = js_add a (js_neg b)"

fun js_sign :: "jsnum \<Rightarrow> real" where
  "js_sign NaN = 0"
| "js_sign PInf = 1"
| "js_sign NInf = - 1"
| "js_sign (Fin a) = sgn a"

fun js_mul :: "jsnum \<Rightarrow> jsnum \<Rightarrow> jsnum" where
  "js_mul NaN _ = NaN"
| "js_mul _ NaN = NaN"
| "js_mul (Fin a) (Fin b) = Fin (a * b)"
| "js_mul x y =
     (if js_sign x * js_sign y > 0 then PInf
      else if js_sign x * js_sign y < 0 then NInf
      else NaN)"

fun js_div :: "jsnum \<Rightarrow> jsnum \<Rightarrow> jsnum" where
  "js_div NaN _ = NaN"
| "js_div _ NaN = NaN"
| "js_div (Fin a) (Fin b) =
     (if b = 0 then (if a > 0 then PInf else if a < 0 then NInf else NaN)
      else Fin (a / b))"
| "js_div (Fin a) _ = Fin 0"
| "js_div PInf (Fin b) = (if b \<ge> 0 then PInf else NInf)"
| "js_div NInf (Fin b) = (if b \<ge> 0 then NInf else PInf)"
| "js_div _ _ = NaN"

fun js_lt :: "jsnum \<Rightarrow> jsnum \<Rightarrow> bool" where
  "js_lt NaN _ = False"
| "js_lt _ NaN = False"
| "js_lt (Fin a) (Fin b) = (a < b)"
| "js_lt PInf _ = False"
| "js_lt _ NInf = False"
| "js_lt _ _ = True"

definition js_gt :: "jsnum \<Rightarrow> jsnum \<Rightarrow> bool" where
  "js_gt a b = js_lt b a"

definition js_le :: "jsnum \<Rightarrow> jsnum \<Rightarrow> bool" where
  \<comment> \<open>\<open>a <= b\<close> is \<open>!(b < a)\<close>, and false when either side is NaN\<close>
  "js_le a b = (\<not> js_isNaN a \<and> \<not> js_isNaN b \<and> \<not> js_lt b a)"

definition js_ge :: "jsnum \<Rightarrow> jsnum \<Rightarrow> bool" where
  "js_ge a b = js_le b a"

fun js_abs :: "jsnum \<Rightarrow> jsnum" where
  "js_abs NaN = NaN"
| "js_abs PInf = PInf"
| "js_abs NInf = PInf"
| "js_abs (Fin a) = Fin \<bar>a\<bar>"

definition js_min :: "jsnum \<Rightarrow> jsnum \<Rightarrow> jsnum" where
  \<comment> \<open>\<open>Math.min\<close> of two arguments: NaN when either is NaN\<close>
  "js_min a b = (if js_isNaN a \<or> js_isNaN b then NaN else if js_lt b a then b else a)"

definition js_max :: "jsnum \<Rightarrow> jsnum \<Rightarrow> jsnum" where
  "js_max a b = (if js_isNaN a \<or> js_isNaN b then NaN else if js_lt a b then b else a)"

fun js_sqrt :: "jsnum \<Rightarrow> jsnum" where
  "js_sqrt NaN = NaN"
| "js_sqrt PInf = PInf"
| "js_sqrt NInf = NaN"
| "js_sqrt (Fin a) = (if a < 0 then NaN else Fin (sqrt a))"

fun js_pow2 :: "jsnum \<Rightarrow> jsnum" where
  \<comment> \<open>\<open>Math.pow(x, 2)\<close>\<close>
  "js_pow2 NaN = NaN"
| "js_pow2 PInf = PInf"
| "js_pow2 NInf = PInf"
| "js_pow2 (Fin a) = Fin (a * a)"

definition js_index :: "jsnum list \<Rightarrow> int \<Rightarrow> jsnum" where
  \<comment> \<open>\<open>xs[i]\<close>: a read outside the array gives \<open>undefined\<close>, which every use in this
      code (arithmetic, \<open>isNaN\<close>, \<open>Math.abs\<close>, a comparison) converts to NaN\<close>
  "js_index xs i = (if 0 \<le> i \<and> i < int (length xs) then xs ! nat i else NaN)"

definition js_slice :: "'a list \<Rightarrow> int \<Rightarrow> int \<Rightarrow> 'a list" where
  \<comment> \<open>\<open>xs.slice(start, end)\<close>: negative arguments count from the end, both are clamped\<close>
  "js_slice xs start end =
     (let n = int (length xs);
          k = (if start < 0 then max (n + start) 0 else min start n);
          final = (if end < 0 then max (n + end) 0 else min end n)
      in take (nat (final - k)) (drop (nat k) xs))"

definition num :: "nat \<Rightarrow> jsnum" where
  \<comment> \<open>a period or a length used as a number\<close>
  "num n = Fin (real n)"

section \<open>Signal analyzer (trading-utilities.ts)\<close>

datatype signal_type = bullish | bearish | neutral

record MACDSignal =
  type :: signal_type
  strength :: jsnum
  description :: string

definition analyzeMACDSignal :: "jsnum list \<Rightarrow> jsnum list \<Rightarrow> jsnum list \<Rightarrow> MACDSignal" where
  "analyzeMACDSignal macdLine signalLine histogram =
     (if length macdLine < 3 \<or> length signalLine < 3 then
        \<lparr>type = neutral, strength = Fin 0, description = ''Insufficient data''\<rparr>
      else
        let currentMACD = js_index macdLine (int (length macdLine) - 1);
            currentSignal = js_index signalLine (int (length signalLine) - 1);
            currentHistogram = js_index histogram (int (length histogram) - 1);
            previousMACD = js_index macdLine (int (length macdLine) - 2);
            previousSignal = js_index signalLine (int (length signalLine) - 2)
        in if js_le previousMACD previousSignal \<and> js_gt currentMACD currentSignal then
             \<lparr>type = bullish,
              strength = js_min (js_mul (js_abs currentHistogram) (Fin 10)) (Fin 100),
              description = ''MACD bullish crossover''\<rparr>
           else if js_ge previousMACD previousSignal \<and> js_lt currentMACD currentSignal then
             \<lparr>type = bearish,
              strength = js_min (js_mul (js_abs currentHistogram) (Fin 10)) (Fin 100),
              description = ''MACD bearish crossover''\<rparr>
           else
             \<lparr>type = neutral, strength = Fin 0, description = ''No clear MACD signal''\<rparr>)"

section \<open>Indicator library (technical-indicators.ts)\<close>

text \<open>
  A period is a window size and is modelled as a natural number. Each \<open>for\<close> loop of the
  source is a function recursing on the loop index, with the arrays being built as
  accumulators; \<open>push\<close> appends at the end.
\<close>

subsection \<open>calculateSMA\<close>

function sma_loop :: "jsnum list \<Rightarrow> nat \<Rightarrow> nat \<Rightarrow> jsnum list \<Rightarrow> jsnum list" where
  "sma_loop data period i sma =
     (if i < length data then
        (if int i < int period - 1 then sma_loop data period (i + 1) (sma @ [NaN])
         else
           let sum = foldl js_add (Fin 0) (js_slice data (int i - int period + 1) (int i + 1))
           in sma_loop data period (i + 1) (sma @ [js_div sum (num period)]))
      else sma)"
  by pat_completeness auto
termination
  by (relation "measure (\<lambda>(data, period, i, sma). length data - i)") auto

definition calculateSMA :: "jsnum list \<Rightarrow> nat \<Rightarrow> jsnum list" where
  "calculateSMA data period = sma_loop data period 0 []"

subsection \<open>calculateEMA\<close>

function ema_seed_loop ::
  "jsnum list \<Rightarrow> nat \<Rightarrow> nat \<Rightarrow> jsnum \<Rightarrow> jsnum list \<Rightarrow> jsnum \<times> jsnum list" where
  "ema_seed_loop data period i sum_acc ema =
     (if i < period \<and> i < length data then
        ema_seed_loop data period (i + 1) (js_add sum_acc (js_index data (int i))) (ema @ [NaN])
      else (sum_acc, ema))"
  by pat_completeness auto
termination
  by (relation "measure (\<lambda>(data, period, i, sum_acc, ema). length data - i)") auto

text \<open>
  The second loop reads \<open>ema[i - 1]\<close>. At \<open>i = 0\<close> (which happens for period 0 only) that
  is the key \<open>-1\<close>, which is not an element of the array: the assignment
  \<open>ema[period - 1] = firstSMA\<close> has stored \<open>firstSMA\<close> under that key without changing
  the length. The value under the key \<open>-1\<close> is the parameter \<open>neg1\<close>.
\<close>

function ema_loop ::
  "jsnum list \<Rightarrow> jsnum \<Rightarrow> jsnum \<Rightarrow> nat \<Rightarrow> jsnum list \<Rightarrow> jsnum list" where
  "ema_loop data multiplier neg1 i ema =
     (if i < length data then
        let prev = (if i = 0 then neg1 else js_index ema (int i - 1))
        in ema_loop data multiplier neg1 (i + 1)
             (ema @ [js_add (js_mul (js_sub (js_index data (int i)) prev) multiplier) prev])
      else ema)"
  by pat_completeness auto
termination
  by (relation "measure (\<lambda>(data, multiplier, neg1, i, ema). length data - i)") auto

definition calculateEMA :: "jsnum list \<Rightarrow> nat \<Rightarrow> jsnum list" where
  "calculateEMA data period =
     (let multiplier = js_div (Fin 2) (js_add (num period) (Fin 1));
          (sum, ema) = ema_seed_loop data period 0 (Fin 0) []
      in if length data \<ge> period then
           let firstSMA = js_div sum (num period)
           in if period = 0 then ema_loop data multiplier firstSMA period ema
              else ema_loop data multiplier NaN period (ema[period - 1 := firstSMA])
         else ema)"

subsection \<open>calculateRSI\<close>

function rsi_seed_loop ::
  "jsnum list \<Rightarrow> nat \<Rightarrow> nat \<Rightarrow> jsnum \<Rightarrow> jsnum \<Rightarrow> jsnum \<times> jsnum" where
  "rsi_seed_loop data period i gains losses =
     (if i \<le> period \<and> i < length data then
        let change = js_sub (js_index data (int i)) (js_index data (int i - 1))
        in if js_gt change (Fin 0)
           then rsi_seed_loop data period (i + 1) (js_add gains change) losses
           else rsi_seed_loop data period (i + 1) gains (js_sub losses change)
      else (gains, losses))"
  by pat_completeness auto
termination
  by (relation "measure (\<lambda>(data, period, i, gains, losses). length data - i)") auto

text \<open>
  One pass through the body of the second loop, from the bar's change and the running
  averages to the new averages and the value pushed.
\<close>

definition rsi_step :: "nat \<Rightarrow> jsnum \<Rightarrow> jsnum \<Rightarrow> jsnum \<Rightarrow> jsnum \<times> jsnum \<times> jsnum" where
  "rsi_step period avgGain avgLoss change =
     (let gains = (if js_gt change (Fin 0) then change else Fin 0);
          losses = (if js_gt change (Fin 0) then Fin 0 else js_neg change);
          avgGain' = js_div (js_add (js_mul avgGain (js_sub (num period) (Fin 1))) gains) (num period);
          avgLoss' = js_div (js_add (js_mul avgLoss (js_sub (num period) (Fin 1))) losses) (num period);
          rs = js_div avgGain' avgLoss'
      in (avgGain', avgLoss', js_sub (Fin 100) (js_div (Fin 100) (js_add (Fin 1) rs))))"

function rsi_loop ::
  "jsnum list \<Rightarrow> nat \<Rightarrow> nat \<Rightarrow> jsnum \<Rightarrow> jsnum \<Rightarrow> jsnum list \<Rightarrow> jsnum list" where
  "rsi_loop data period i avgGain avgLoss rsi =
     (if i < length data then
        let change = js_sub (js_index data (int i)) (js_index data (int i - 1));
            (avgGain', avgLoss', v) = rsi_step period avgGain avgLoss change
        in rsi_loop data period (i + 1) avgGain' avgLoss' (rsi @ [v])
      else rsi)"
  by pat_completeness auto
termination
  by (relation "measure (\<lambda>(data, period, i, avgGain, avgLoss, rsi). length data - i)") auto

definition calculateRSI :: "jsnum list \<Rightarrow> nat \<Rightarrow> jsnum list" where
  "calculateRSI data period =
     (let (gains, losses) = rsi_seed_loop data period 1 (Fin 0) (Fin 0);
          avgGain = js_div gains (num period);
          avgLoss = js_div losses (num period)
      in rsi_loop data period (period + 1) avgGain avgLoss [NaN])"

subsection \<open>calculateBollingerBands\<close>

record BollingerBands =
  upper :: "jsnum list"
  middle :: "jsnum list"
  lower :: "jsnum list"

definition standardDeviation :: "jsnum list \<Rightarrow> jsnum \<Rightarrow> nat \<Rightarrow> jsnum" where
  \<comment> \<open>the deviation the loop body computes from the window \<open>slice\<close> and its mean\<close>
  "standardDeviation slice mean period =
     (let squaredDiffs = map (\<lambda>value. js_pow2 (js_sub value mean)) slice;
          avgSquaredDiff = js_div (foldl js_add (Fin 0) squaredDiffs) (num period)
      in js_sqrt avgSquaredDiff)"

function bollinger_loop ::
  "jsnum list \<Rightarrow> nat \<Rightarrow> jsnum \<Rightarrow> jsnum list \<Rightarrow> nat \<Rightarrow> BollingerBands \<Rightarrow> BollingerBands" where
  "bollinger_loop data period stdDev sma i bands =
     (if i < length data then
        (if int i < int period - 1 then
           bollinger_loop data period stdDev sma (i + 1)
             \<lparr>upper = upper bands @ [NaN], middle = middle bands @ [NaN],
              lower = lower bands @ [NaN]\<rparr>
         else
           let slice = js_slice data (int i - int period + 1) (int i + 1);
               mean = js_index sma (int i);
               sd = standardDeviation slice mean period
           in bollinger_loop data period stdDev sma (i + 1)
                \<lparr>upper = upper bands @ [js_add mean (js_mul sd stdDev)],
                 middle = middle bands @ [mean],
                 lower = lower bands @ [js_sub mean (js_mul sd stdDev)]\<rparr>)
      else bands)"
  by pat_completeness auto
termination
  by (relation "measure (\<lambda>(data, period, stdDev, sma, i, bands). length data - i)") auto

definition calculateBollingerBands :: "jsnum list \<Rightarrow> nat \<Rightarrow> jsnum \<Rightarrow> BollingerBands" where
  "calculateBollingerBands data period stdDev =
     bollinger_loop data period stdDev (calculateSMA data period) 0
       \<lparr>upper = [], middle = [], lower = []\<rparr>"

subsection \<open>calculateMACD\<close>

function macd_loop ::
  "jsnum list \<Rightarrow> jsnum list \<Rightarrow> jsnum list \<Rightarrow> nat \<Rightarrow> jsnum list \<Rightarrow> jsnum list" where
  "macd_loop data fastEMA slowEMA i macd =
     (if i < length data then
        (if js_isNaN (js_index fastEMA (int i)) \<or> js_isNaN (js_index slowEMA (int i))
         then macd_loop data fastEMA slowEMA (i + 1) (macd @ [NaN])
         else macd_loop data fastEMA slowEMA (i + 1)
                (macd @ [js_sub (js_index fastEMA (int i)) (js_index slowEMA (int i))]))
      else macd)"
  by pat_completeness auto
termination
  by (relation "measure (\<lambda>(data, fastEMA, slowEMA, i, macd). length data - i)") auto

function histogram_loop ::
  "jsnum list \<Rightarrow> jsnum list \<Rightarrow> nat \<Rightarrow> nat \<Rightarrow> jsnum list \<Rightarrow> jsnum list" where
  "histogram_loop macd signal i signalIndex histogram =
     (if i < length macd then
        (if js_isNaN (js_index macd (int i))
         then histogram_loop macd signal (i + 1) signalIndex (histogram @ [NaN])
         else if signalIndex < length signal
           then histogram_loop macd signal (i + 1) (signalIndex + 1)
                  (histogram @ [js_sub (js_index macd (int i)) (js_index signal (int signalIndex))])
           else histogram_loop macd signal (i + 1) signalIndex (histogram @ [NaN]))
      else histogram)"
  by pat_completeness auto
termination
  by (relation "measure (\<lambda>(macd, signal, i, signalIndex, histogram). length macd - i)") auto

record MACDResult =
  macd :: "jsnum list"
  signal :: "jsnum list"
  histogram :: "jsnum list"

definition calculateMACD :: "jsnum list \<Rightarrow> nat \<Rightarrow> nat \<Rightarrow> nat \<Rightarrow> MACDResult" where
  "calculateMACD data fastPeriod slowPeriod signalPeriod =
     (let fastEMA = calculateEMA data fastPeriod;
          slowEMA = calculateEMA data slowPeriod;
          macd = macd_loop data fastEMA slowEMA 0 [];
          signal = calculateEMA (filter (\<lambda>val. \<not> js_isNaN val) macd) signalPeriod;
          histogram = histogram_loop macd signal 0 0 []
      in \<lparr>macd = macd, signal = signal, histogram = histogram\<rparr>)"

subsection \<open>calculateATR\<close>

record CandleData =
  time :: jsnum
  open_price :: jsnum
  high :: jsnum
  low :: jsnum
  close :: jsnum
  volume :: jsnum

function tr_loop :: "CandleData list \<Rightarrow> nat \<Rightarrow> jsnum list \<Rightarrow> jsnum list" where
  "tr_loop data i tr =
     (if i < length data then
        (if i = 0 then tr_loop data (i + 1) (tr @ [js_sub (high (data ! i)) (low (data ! i))])
         else
           let highLow = js_sub (high (data ! i)) (low (data ! i));
               highClose = js_abs (js_sub (high (data ! i)) (close (data ! (i - 1))));
               lowClose = js_abs (js_sub (low (data ! i)) (close (data ! (i - 1))))
           in tr_loop data (i + 1) (tr @ [js_max (js_max highLow highClose) lowClose]))
      else tr)"
  by pat_completeness auto
termination
  by (relation "measure (\<lambda>(data, i, tr). length data - i)") auto

definition calculateATR :: "CandleData list \<Rightarrow> nat \<Rightarrow> jsnum list" where
  "calculateATR data period = calculateEMA (tr_loop data 0 []) period"

section \<open>Basic facts about the number model\<close>

lemma js_lt_asym: "js_lt a b \<Longrightarrow> \<not> js_lt b a"
  by (cases a; cases b) auto

lemma js_index_last: "xs \<noteq> [] \<Longrightarrow> js_index xs (int (length xs) - 1) = last xs"
  by (cases xs) (auto simp: js_index_def last_conv_nth nat_diff_distrib)

lemma js_index_prev: "2 \<le> length xs \<Longrightarrow> js_index xs (int (length xs) - 2) = xs ! (length xs - 2)"
  by (auto simp: js_index_def nat_diff_distrib)

lemma js_index_snoc_last: "js_index (xs @ [c]) (int (length (xs @ [c])) - 1) = c"
  using js_index_last [of "xs @ [c]"] by simp

lemma js_index_snoc_prev: "js_index (xs @ [b, c]) (int (length (xs @ [b, c])) - 2) = b"
  using js_index_prev [of "xs @ [b, c]"] by (simp add: nth_append)

section \<open>Properties of the signal analyzer\<close>

text \<open>
  Claim C5, as amended. With \<open>macdLine = [-1, 1]\<close> and \<open>signalLine = [0, 0]\<close> the guard
  on fewer than 3 points fires: the result is neutral with strength 0 and the description
  "Insufficient data", whatever the histogram. As soon as the two lines have 3 points or
  more and end in \<open>-1, 1\<close> and \<open>0, 0\<close>, and the histogram ends in 5, the result is
  bullish with strength \<open>min(50, 100) = 50\<close>.
\<close>

theorem analyzeMACDSignal_example:
  "analyzeMACDSignal [Fin (- 1), Fin 1] [Fin 0, Fin 0] h
     = \<lparr>type = neutral, strength = Fin 0, description = ''Insufficient data''\<rparr>
   \<and> analyzeMACDSignal (ms @ [m0, Fin (- 1), Fin 1]) (ss @ [s0, Fin 0, Fin 0]) (hs @ [Fin 5])
     = \<lparr>type = bullish, strength = Fin 50, description = ''MACD bullish crossover''\<rparr>"
proof -
  have m1: "js_index (ms @ [m0, Fin (- 1), Fin 1]) (int (length (ms @ [m0, Fin (- 1), Fin 1])) - 1) = Fin 1"
    using js_index_snoc_last [of "ms @ [m0, Fin (- 1)]" "Fin 1"] by simp
  have m2: "js_index (ms @ [m0, Fin (- 1), Fin 1]) (int (length (ms @ [m0, Fin (- 1), Fin 1])) - 2) = Fin (- 1)"
    using js_index_snoc_prev [of "ms @ [m0]" "Fin (- 1)" "Fin 1"] by simp
  have s1: "js_index (ss @ [s0, Fin 0, Fin 0]) (int (length (ss @ [s0, Fin 0, Fin 0])) - 1) = Fin 0"
    using js_index_snoc_last [of "ss @ [s0, Fin 0]" "Fin 0"] by simp
  have s2: "js_index (ss @ [s0, Fin 0, Fin 0]) (int (length (ss @ [s0, Fin 0, Fin 0])) - 2) = Fin 0"
    using js_index_snoc_prev [of "ss @ [s0]" "Fin 0" "Fin 0"] by simp
  have h1: "js_index (hs @ [Fin 5]) (int (length (hs @ [Fin 5])) - 1) = Fin 5"
    by (rule js_index_snoc_last)
  have long: "\<not> (length (ms @ [m0, Fin (- 1), Fin 1]) < 3 \<or> length (ss @ [s0, Fin 0, Fin 0]) < 3)"
    by simp
  have "analyzeMACDSignal (ms @ [m0, Fin (- 1), Fin 1]) (ss @ [s0, Fin 0, Fin 0]) (hs @ [Fin 5])
     = \<lparr>type = bullish, strength = Fin 50, description = ''MACD bullish crossover''\<rparr>"
    unfolding analyzeMACDSignal_def Let_def m1 m2 s1 s2 h1 if_not_P [OF long]
    by (simp add: js_le_def js_gt_def js_min_def)
  moreover have "analyzeMACDSignal [Fin (- 1), Fin 1] [Fin 0, Fin 0] h
     = \<lparr>type = neutral, strength = Fin 0, description = ''Insufficient data''\<rparr>"
    by (simp add: analyzeMACDSignal_def)
  ultimately show ?thesis by simp
qed


text \<open>
  Claim C5 as stated fails: on the two-point lines of the example the result is neither
  bullish nor of strength 50.
\<close>

theorem analyzeMACDSignal_short_example_counterexample:
  "type (analyzeMACDSignal [Fin (- 1), Fin 1] [Fin 0, Fin 0] [Fin 5]) \<noteq> bullish
   \<and> strength (analyzeMACDSignal [Fin (- 1), Fin 1] [Fin 0, Fin 0] [Fin 5]) \<noteq> Fin 50"
  by (simp add: analyzeMACDSignal_def)

text \<open>
  Claim C6. The result is exactly neutral, strength 0, "Insufficient data" if and only if
  the macd line or the signal line has fewer than 3 points.
\<close>

theorem analyzeMACDSignal_insufficient_iff:
  "analyzeMACDSignal m s h
     = \<lparr>type = neutral, strength = Fin 0, description = ''Insufficient data''\<rparr>
   \<longleftrightarrow> (length m < 3 \<or> length s < 3)"
  by (simp add: analyzeMACDSignal_def Let_def)

theorem analyzeMACDSignal_insufficient_iff_witness:
  "analyzeMACDSignal [Fin 1, Fin 2] [Fin 1, Fin 2, Fin 3] [Fin 0, Fin 0, Fin 0]
     = \<lparr>type = neutral, strength = Fin 0, description = ''Insufficient data''\<rparr>
   \<and> analyzeMACDSignal [Fin 1, Fin 2, Fin 3] [Fin 1, Fin 2, Fin 3] [Fin 0, Fin 0, Fin 0]
     \<noteq> \<lparr>type = neutral, strength = Fin 0, description = ''Insufficient data''\<rparr>"
  using analyzeMACDSignal_insufficient_iff [of "[Fin 1, Fin 2]" "[Fin 1, Fin 2, Fin 3]" "[Fin 0, Fin 0, Fin 0]"]
    analyzeMACDSignal_insufficient_iff [of "[Fin 1, Fin 2, Fin 3]" "[Fin 1, Fin 2, Fin 3]" "[Fin 0, Fin 0, Fin 0]"]
  by simp

text \<open>
  Claim C7. With 3 points or more in each series, the result is bullish exactly when the
  second-to-last macd value is \<open><=\<close> the second-to-last signal value and the last macd
  value is \<open>>\<close> the last signal value, and then its strength is
  \<open>Math.min(Math.abs(last histogram value) * 10, 100)\<close>; it is bearish exactly when the
  second-to-last macd value is \<open>>=\<close> the second-to-last signal value and the last macd
  value is \<open><\<close> the last signal value, with the same strength; otherwise it is neutral
  with strength 0. The two crossover conditions exclude each other. The comparisons are
  JavaScript's, false on NaN.
\<close>

theorem analyzeMACDSignal_crossover:
  assumes "3 \<le> length m" and "3 \<le> length s" and "3 \<le> length h"
  shows "let r = analyzeMACDSignal m s h;
             bull = (js_le (m ! (length m - 2)) (s ! (length s - 2)) \<and> js_gt (last m) (last s));
             bear = (js_ge (m ! (length m - 2)) (s ! (length s - 2)) \<and> js_lt (last m) (last s));
             str = js_min (js_mul (js_abs (last h)) (Fin 10)) (Fin 100)
         in (type r = bullish \<longleftrightarrow> bull) \<and> (bull \<longrightarrow> strength r = str)
          \<and> (type r = bearish \<longleftrightarrow> bear) \<and> (bear \<longrightarrow> strength r = str)
          \<and> (\<not> bull \<and> \<not> bear \<longrightarrow> type r = neutral \<and> strength r = Fin 0)
          \<and> \<not> (bull \<and> bear)"
proof -
  from assms have ne: "m \<noteq> []" "s \<noteq> []" "h \<noteq> []" by auto
  from assms have two: "2 \<le> length m" "2 \<le> length s" by auto
  from assms have guard: "\<not> (length m < 3 \<or> length s < 3)" by auto
  show ?thesis
    using guard js_lt_asym [of "last s" "last m"]
    by (auto simp: analyzeMACDSignal_def Let_def js_index_last [OF ne(1)] js_index_last [OF ne(2)]
        js_index_last [OF ne(3)] js_index_prev [OF two(1)] js_index_prev [OF two(2)] js_gt_def)
qed

theorem analyzeMACDSignal_crossover_witness:
  "type (analyzeMACDSignal [Fin 0, Fin (- 1), Fin 1] [Fin 0, Fin 0, Fin 0] [Fin 0, Fin 0, Fin 5]) = bullish
   \<and> strength (analyzeMACDSignal [Fin 0, Fin (- 1), Fin 1] [Fin 0, Fin 0, Fin 0] [Fin 0, Fin 0, Fin 5]) = Fin 50
   \<and> type (analyzeMACDSignal [Fin 0, Fin 1, Fin (- 1)] [Fin 0, Fin 0, Fin 0] [Fin 0, Fin 0, Fin (- 20)]) = bearish
   \<and> strength (analyzeMACDSignal [Fin 0, Fin 1, Fin (- 1)] [Fin 0, Fin 0, Fin 0] [Fin 0, Fin 0, Fin (- 20)]) = Fin 100
   \<and> type (analyzeMACDSignal [Fin 0, Fin 1, Fin 2] [Fin 0, Fin 0, Fin 0] [Fin 0, Fin 0, Fin 2]) = neutral
   \<and> strength (analyzeMACDSignal [Fin 0, Fin 1, Fin 2] [Fin 0, Fin 0, Fin 0] [Fin 0, Fin 0, Fin 2]) = Fin 0"
  using analyzeMACDSignal_crossover [of "[Fin 0, Fin (- 1), Fin 1]" "[Fin 0, Fin 0, Fin 0]" "[Fin 0, Fin 0, Fin 5]"]
    analyzeMACDSignal_crossover [of "[Fin 0, Fin 1, Fin (- 1)]" "[Fin 0, Fin 0, Fin 0]" "[Fin 0, Fin 0, Fin (- 20)]"]
    analyzeMACDSignal_crossover [of "[Fin 0, Fin 1, Fin 2]" "[Fin 0, Fin 0, Fin 0]" "[Fin 0, Fin 0, Fin 2]"]
  by (simp add: Let_def js_le_def js_ge_def js_gt_def js_min_def)


section \<open>Properties of calculateSMA\<close>

declare sma_loop.simps [simp del]

lemma js_slice_nat:
  assumes "k \<le> e" and "e \<le> length xs"
  shows "js_slice xs (int k) (int e) = take (e - k) (drop k xs)"
proof -
  have "min (int k) (int (length xs)) = int k" "min (int e) (int (length xs)) = int e"
    using assms by auto
  moreover have "nat (int e - int k) = e - k" by linarith
  ultimately show ?thesis
    by (simp add: js_slice_def Let_def)
qed

lemma js_slice_window:
  assumes "i < length xs" and "\<not> int i < int p - 1"
  shows "js_slice xs (int i - int p + 1) (int i + 1) = take p (drop (i + 1 - p) xs)"
proof -
  from assms have a: "int i - int p + 1 = int (i + 1 - p)" "int i + 1 = int (i + 1)"
    by linarith+
  from assms have b: "i + 1 - p \<le> i + 1" "i + 1 \<le> length xs" "i + 1 - (i + 1 - p) = p"
    by linarith+
  show ?thesis
    unfolding a using js_slice_nat [OF b(1) b(2)] b(3) by simp
qed

lemma sma_loop_eq:
  "sma_loop data period i sma =
     sma @ map (\<lambda>j. if int j < int period - 1 then NaN
                     else js_div (foldl js_add (Fin 0) (js_slice data (int j - int period + 1) (int j + 1)))
                            (num period))
             [i..<length data]"
proof (induction data period i sma rule: sma_loop.induct)
  case (1 data period i sma)
  show ?case
  proof (cases "i < length data")
    case True
    then have u: "[i..<length data] = i # [i + 1..<length data]"
      by (simp add: upt_conv_Cons)
    show ?thesis
      using True "1.IH"
      by (subst sma_loop.simps) (simp add: u Let_def)
  next
    case False
    then show ?thesis by (subst sma_loop.simps) simp
  qed
qed



lemma calculateSMA_length: "length (calculateSMA s p) = length s"
  by (simp add: calculateSMA_def sma_loop_eq)

lemma calculateSMA_nth:
  "i < length s \<Longrightarrow> calculateSMA s p ! i =
     (if int i < int p - 1 then NaN
      else js_div (foldl js_add (Fin 0) (take p (drop (i + 1 - p) s))) (num p))"
  by (simp add: calculateSMA_def sma_loop_eq js_slice_window)




section \<open>Properties of calculateEMA\<close>

declare ema_seed_loop.simps [simp del] ema_loop.simps [simp del]

lemma js_index_nat: "i < length xs \<Longrightarrow> js_index xs (int i) = xs ! i"
  by (simp add: js_index_def)

lemma js_index_pred: "0 < i \<Longrightarrow> i \<le> length xs \<Longrightarrow> js_index xs (int i - 1) = xs ! (i - 1)"
  by (simp add: js_index_def nat_diff_distrib)

lemma js_add_commute: "js_add a b = js_add b a"
  by (cases a; cases b) simp_all

lemma js_mul_commute: "js_mul a b = js_mul b a"
  by (cases a; cases b) (simp_all add: mult.commute)

lemma ema_seed_loop_eq:
  "ema_seed_loop data period i sum_acc ema =
     (foldl js_add sum_acc (take (min period (length data) - i) (drop i data)),
      ema @ replicate (min period (length data) - i) NaN)"
proof (induction data period i sum_acc ema rule: ema_seed_loop.induct)
  case (1 data period i sum_acc ema)
  show ?case
  proof (cases "i < period \<and> i < length data")
    case True
    then have m: "min period (length data) - i = Suc (min period (length data) - (i + 1))"
      by auto
    from True have d: "drop i data = data ! i # drop (i + 1) data"
      by (simp add: Cons_nth_drop_Suc)
    show ?thesis
      using True "1.IH"
      by (subst ema_seed_loop.simps) (simp add: m d js_index_nat replicate_append_same)
  next
    case False
    then have "min period (length data) - i = 0" by auto
    with False show ?thesis by (subst ema_seed_loop.simps) auto
  qed
qed

lemma ema_loop_length:
  "length (ema_loop data multiplier neg1 i ema) = length ema + (length data - i)"
proof (induction data multiplier neg1 i ema rule: ema_loop.induct)
  case (1 data multiplier neg1 i ema)
  show ?case
  proof (cases "i < length data")
    case True
    with "1.IH" show ?thesis by (subst ema_loop.simps) (simp add: Let_def)
  next
    case False
    then show ?thesis by (subst ema_loop.simps) simp
  qed
qed

lemma ema_loop_prefix:
  "j < length ema \<Longrightarrow> ema_loop data multiplier neg1 i ema ! j = ema ! j"
proof (induction data multiplier neg1 i ema rule: ema_loop.induct)
  case (1 data multiplier neg1 i ema)
  show ?case
  proof (cases "i < length data")
    case True
    with "1.IH" "1.prems" show ?thesis
      by (subst ema_loop.simps) (simp add: Let_def nth_append)
  next
    case False
    then show ?thesis by (subst ema_loop.simps) simp
  qed
qed

lemma ema_loop_step:
  assumes "length ema = i" and "0 < i" and "i \<le> j" and "j < length data"
  shows "ema_loop data multiplier neg1 i ema ! j =
           js_add (js_mul (js_sub (data ! j) (ema_loop data multiplier neg1 i ema ! (j - 1))) multiplier)
             (ema_loop data multiplier neg1 i ema ! (j - 1))"
  using assms
proof (induction data multiplier neg1 i ema rule: ema_loop.induct)
  case (1 data multiplier neg1 i ema)
  let ?prev = "js_index ema (int i - 1)"
  let ?v = "js_add (js_mul (js_sub (js_index data (int i)) ?prev) multiplier) ?prev"
  let ?ema' = "ema @ [?v]"
  from "1.prems" have lt: "i < length data" by simp
  have unfold: "ema_loop data multiplier neg1 i ema = ema_loop data multiplier neg1 (i + 1) ?ema'"
    using lt "1.prems"(2) by (subst ema_loop.simps) (simp add: Let_def)
  let ?R = "ema_loop data multiplier neg1 i ema"
  show ?case
  proof (cases "j = i")
    case True
    have a: "?R ! i = ?v"
      unfolding unfold using "1.prems"(1) by (simp add: ema_loop_prefix nth_append)
    have b: "?R ! (i - 1) = ema ! (i - 1)"
      unfolding unfold using "1.prems"(1,2) by (simp add: ema_loop_prefix nth_append)
    have c: "?prev = ema ! (i - 1)"
      using "1.prems"(1,2) by (simp add: js_index_pred)
    have d: "js_index data (int i) = data ! i"
      using lt by (simp add: js_index_nat)
    show ?thesis
      unfolding True a b unfolding c d ..
  next
    case False
    with "1.prems" have "i + 1 \<le> j" by simp
    moreover have "length ?ema' = i + 1" using "1.prems"(1) by simp
    ultimately show ?thesis
      unfolding unfold
      using "1.IH" [OF lt refl] "1.prems"(2,4) by simp
  qed
qed

lemma calculateEMA_length: "length (calculateEMA s p) = length s"
  by (auto simp: calculateEMA_def Let_def ema_seed_loop_eq ema_loop_length)

lemma calculateEMA_short: "length s < p \<Longrightarrow> calculateEMA s p = replicate (length s) NaN"
  by (simp add: calculateEMA_def Let_def ema_seed_loop_eq)

lemma calculateEMA_long:
  assumes "1 \<le> p" and "p \<le> length s"
  shows "calculateEMA s p =
     ema_loop s (js_div (Fin 2) (js_add (num p) (Fin 1))) NaN p
       ((replicate p NaN)[p - 1 := js_div (foldl js_add (Fin 0) (take p s)) (num p)])"
  using assms by (simp add: calculateEMA_def Let_def ema_seed_loop_eq)

lemma ema_multiplier: "js_div (Fin 2) (js_add (num p) (Fin 1)) = Fin (2 / (real p + 1))"
proof -
  have "real p + 1 \<noteq> 0" by (metis add.commute of_nat_Suc of_nat_neq_0 Suc_eq_plus1_left)
  then show ?thesis by (simp add: num_def)
qed

text \<open>
  Claim C9. For \<open>len(s) \<ge> p \<ge> 1\<close>: the entry of \<open>calculateEMA(s, p)\<close> at index \<open>p - 1\<close> is
  the entry of \<open>calculateSMA(s, p)\<close> at that index; the entries before \<open>p - 1\<close> are NaN;
  and every entry at an index \<open>i \<ge> p\<close> is \<open>prev + (2/(p+1)) * (s[i] - prev)\<close>, where
  \<open>prev\<close> is the entry at \<open>i - 1\<close>.
\<close>

theorem calculateEMA_spec:
  assumes "1 \<le> p" and "p \<le> length s"
  shows "calculateEMA s p ! (p - 1) = calculateSMA s p ! (p - 1)
    \<and> (i < p - 1 \<longrightarrow> calculateEMA s p ! i = NaN)
    \<and> (p \<le> i \<and> i < length s \<longrightarrow>
         calculateEMA s p ! i =
           js_add (calculateEMA s p ! (i - 1))
             (js_mul (Fin (2 / (real p + 1)))
                (js_sub (s ! i) (calculateEMA s p ! (i - 1)))))"
proof -
  let ?seed = "(replicate p NaN)[p - 1 := js_div (foldl js_add (Fin 0) (take p s)) (num p)]"
  have len: "length ?seed = p" by simp
  have first: "calculateEMA s p ! (p - 1) = js_div (foldl js_add (Fin 0) (take p s)) (num p)"
    using assms by (simp add: calculateEMA_long [OF assms] ema_loop_prefix)
  have sma: "calculateSMA s p ! (p - 1) = js_div (foldl js_add (Fin 0) (take p s)) (num p)"
    using assms by (simp add: calculateSMA_nth)
  have warm: "calculateEMA s p ! i = NaN" if "i < p - 1"
    using that assms by (simp add: calculateEMA_long [OF assms] ema_loop_prefix)
  have step: "calculateEMA s p ! i =
           js_add (calculateEMA s p ! (i - 1))
             (js_mul (Fin (2 / (real p + 1)))
                (js_sub (s ! i) (calculateEMA s p ! (i - 1))))" if "p \<le> i" "i < length s"
  proof -
    have "0 < p" using assms by simp
    from ema_loop_step [OF len this that] show ?thesis
      unfolding calculateEMA_long [OF assms] ema_multiplier
      by (simp add: js_add_commute js_mul_commute)
  qed
  show ?thesis using first sma warm step by simp
qed

theorem calculateEMA_spec_witness:
  "calculateEMA [Fin 1, Fin 2, Fin 6] 2 ! 1 = calculateSMA [Fin 1, Fin 2, Fin 6] 2 ! 1
   \<and> calculateEMA [Fin 1, Fin 2, Fin 6] 2 ! 0 = NaN
   \<and> calculateEMA [Fin 1, Fin 2, Fin 6] 2 ! 2
       = js_add (calculateEMA [Fin 1, Fin 2, Fin 6] 2 ! 1)
          (js_mul (Fin (2 / 3)) (js_sub (Fin 6) (calculateEMA [Fin 1, Fin 2, Fin 6] 2 ! 1)))"
  using calculateEMA_spec [of 2 "[Fin 1, Fin 2, Fin 6]" 0]
    calculateEMA_spec [of 2 "[Fin 1, Fin 2, Fin 6]" 2]
  by simp


section \<open>Properties of calculateRSI\<close>

declare rsi_seed_loop.simps [simp del] rsi_loop.simps [simp del]

lemma rsi_loop_length:
  "length (rsi_loop data period i avgGain avgLoss rsi) = length rsi + (length data - i)"
proof (induction data period i avgGain avgLoss rsi rule: rsi_loop.induct)
  case (1 data period i avgGain avgLoss rsi)
  show ?case
  proof (cases "i < length data")
    case True
    obtain g l v where st: "rsi_step period avgGain avgLoss
        (js_sub (js_index data (int i)) (js_index data (int i - 1))) = (g, l, v)"
      by (metis prod_cases3)
    from "1.IH" [OF True refl st [symmetric] refl] True st show ?thesis
      by (subst rsi_loop.simps) (simp add: Let_def)
  next
    case False
    then show ?thesis by (subst rsi_loop.simps) simp
  qed
qed

lemma rsi_loop_prefix:
  "j < length rsi \<Longrightarrow> rsi_loop data period i avgGain avgLoss rsi ! j = rsi ! j"
proof (induction data period i avgGain avgLoss rsi rule: rsi_loop.induct)
  case (1 data period i avgGain avgLoss rsi)
  show ?case
  proof (cases "i < length data")
    case True
    obtain g l v where st: "rsi_step period avgGain avgLoss
        (js_sub (js_index data (int i)) (js_index data (int i - 1))) = (g, l, v)"
      by (metis prod_cases3)
    from "1.IH" [OF True refl st [symmetric] refl] "1.prems" True st show ?thesis
      by (subst rsi_loop.simps) (simp add: Let_def nth_append)
  next
    case False
    then show ?thesis by (subst rsi_loop.simps) simp
  qed
qed

lemma calculateRSI_length: "length (calculateRSI s p) = 1 + (length s - (p + 1))"
  by (simp add: calculateRSI_def Let_def rsi_loop_length split: prod.split)

text \<open>
  Claim C3, as amended. \<open>calculateRSI(s, p)\<close> returns a series of length \<open>len(s) - p\<close>
  when \<open>len(s) > p\<close> and of length 1 otherwise (the leading NaN is pushed whatever the
  input), and its first element is NaN.
\<close>

theorem calculateRSI_shape:
  "length (calculateRSI s p) = (if p < length s then length s - p else 1)
   \<and> calculateRSI s p ! 0 = NaN"
  by (auto simp: calculateRSI_length)
    (simp_all add: calculateRSI_def Let_def rsi_loop_prefix split: prod.split)

theorem calculateRSI_shape_witness:
  "length (calculateRSI [Fin 1, Fin 2, Fin 3, Fin 2, Fin 5] 2) = 3
   \<and> length (calculateRSI [Fin 1] 2) = 1
   \<and> calculateRSI [Fin 1, Fin 2, Fin 3, Fin 2, Fin 5] 2 ! 0 = NaN"
  using calculateRSI_shape [of "[Fin 1, Fin 2, Fin 3, Fin 2, Fin 5]" 2]
    calculateRSI_shape [of "[Fin 1]" 2]
  by simp

text \<open>
  Claim C3 as stated fails on an input no longer than the period: for one value and period
  1 the result has one element, not \<open>len(s) - p = 0\<close>.
\<close>

theorem calculateRSI_length_counterexample:
  "int (length (calculateRSI [Fin 1] 1)) \<noteq> int (length [Fin 1]) - 1"
  by (simp add: calculateRSI_length)

lemma rsi_step_zero_loss:
  assumes "rsi_step p avgGain avgLoss change = (avgGain', avgLoss', v)"
    and "avgLoss' = Fin 0" and "js_gt avgGain' (Fin 0)"
  shows "v = Fin 100"
proof -
  from assms(1) have v: "v = js_sub (Fin 100) (js_div (Fin 100) (js_add (Fin 1) (js_div avgGain' avgLoss')))"
    by (auto simp: rsi_step_def Let_def)
  from assms(3) have "js_div avgGain' (Fin 0) = PInf"
    by (cases avgGain') (auto simp: js_gt_def)
  with v assms(2) show ?thesis by (simp add: js_sub_def)
qed

lemma rsi_step_rising:
  assumes "1 \<le> p" and "0 < a" and "0 < c"
  shows "rsi_step p (Fin a) (Fin 0) (Fin c) = (Fin ((a * (real p - 1) + c) / real p), Fin 0, Fin 100)"
proof -
  have pos: "0 < (a * (real p - 1) + c) / real p"
    using assms by (simp add: add_nonneg_pos)
  have p0: "real p \<noteq> 0" using assms by simp
  show ?thesis
    using pos p0 assms(3) by (simp add: rsi_step_def Let_def js_gt_def js_sub_def num_def)
qed

lemma rising_change:
  assumes "sorted_wrt (<) rs" and "1 \<le> i" and "i < length rs"
  shows "js_sub (js_index (map Fin rs) (int i)) (js_index (map Fin rs) (int i - 1)) = Fin (rs ! i - rs ! (i - 1))"
    and "rs ! (i - 1) < rs ! i"
proof -
  show "rs ! (i - 1) < rs ! i"
    using assms by (simp add: sorted_wrt_iff_nth_less)
  have "js_index (map Fin rs) (int i) = Fin (rs ! i)"
    using assms by (simp add: js_index_nat)
  moreover have "js_index (map Fin rs) (int i - 1) = Fin (rs ! (i - 1))"
    using assms js_index_pred [of i "map Fin rs"] by simp
  ultimately show "js_sub (js_index (map Fin rs) (int i)) (js_index (map Fin rs) (int i - 1)) = Fin (rs ! i - rs ! (i - 1))"
    by (simp add: js_sub_def)
qed

lemma rsi_seed_loop_rising:
  assumes "sorted_wrt (<) rs" and "1 \<le> i"
  shows "\<exists>g'. rsi_seed_loop (map Fin rs) p i (Fin g) (Fin 0) = (Fin g', Fin 0)
           \<and> g \<le> g' \<and> (i \<le> p \<and> i < length rs \<longrightarrow> g < g')"
  using assms
proof (induction "map Fin rs" p i "Fin g" "Fin 0" arbitrary: g rule: rsi_seed_loop.induct)
  case (1 p i)
  show ?case
  proof (cases "i \<le> p \<and> i < length (map Fin rs)")
    case True
    then have lt: "i < length rs" by simp
    let ?c = "rs ! i - rs ! (i - 1)"
    have ch: "js_sub (js_index (map Fin rs) (int i)) (js_index (map Fin rs) (int i - 1)) = Fin ?c"
      and pos: "0 < ?c"
      using rising_change [OF "1.prems"(1) "1.prems"(2) lt] by simp_all
    have gt: "js_gt (Fin ?c) (Fin 0)" using pos by (simp add: js_gt_def)
    have add: "js_add (Fin g) (Fin ?c) = Fin (g + ?c)" by simp
    from "1.hyps"(1) [OF True ch [symmetric] _ add "1.prems"(1)] gt "1.prems"(2)
    obtain g' where g': "rsi_seed_loop (map Fin rs) p (i + 1) (Fin (g + ?c)) (Fin 0) = (Fin g', Fin 0)"
        "g + ?c \<le> g'"
      by (auto simp: ch)
    have "rsi_seed_loop (map Fin rs) p i (Fin g) (Fin 0) = (Fin g', Fin 0)"
      using True gt g'(1) by (subst rsi_seed_loop.simps) (simp add: ch Let_def)
    moreover have "g < g'" using g'(2) pos by simp
    ultimately show ?thesis by auto
  next
    case False
    then show ?thesis by (subst rsi_seed_loop.simps) auto
  qed
qed

lemma rsi_loop_rising_aux:
  assumes "data = map Fin rs" and "sorted_wrt (<) rs" and "1 \<le> i" and "1 \<le> p"
    and "\<exists>a. avgGain = Fin a \<and> 0 < a" and "avgLoss = Fin 0"
    and "length rsi \<le> j" and "j < length (rsi_loop data p i avgGain avgLoss rsi)"
  shows "rsi_loop data p i avgGain avgLoss rsi ! j = Fin 100"
  using assms
proof (induction data p i avgGain avgLoss rsi rule: rsi_loop.induct)
  case (1 data p i avgGain avgLoss rsi)
  from "1.prems"(5) obtain a where a: "avgGain = Fin a" "0 < a" by blast
  show ?case
  proof (cases "i < length data")
    case True
    then have lt: "i < length rs" using "1.prems"(1) by simp
    let ?c = "rs ! i - rs ! (i - 1)"
    let ?a' = "(a * (real p - 1) + ?c) / real p"
    have ch: "js_sub (js_index data (int i)) (js_index data (int i - 1)) = Fin ?c"
      and pos: "0 < ?c"
      using rising_change [OF "1.prems"(2) "1.prems"(3) lt] "1.prems"(1) by simp_all
    have st: "rsi_step p avgGain avgLoss (Fin ?c) = (Fin ?a', Fin 0, Fin 100)"
      unfolding a(1) "1.prems"(6) by (rule rsi_step_rising [OF "1.prems"(4) a(2) pos])
    have a': "\<exists>b. Fin ?a' = Fin b \<and> 0 < b"
      using "1.prems"(4) a(2) pos by (simp add: add_nonneg_pos)
    have unfold: "rsi_loop data p i avgGain avgLoss rsi
        = rsi_loop data p (i + 1) (Fin ?a') (Fin 0) (rsi @ [Fin 100])"
      by (subst rsi_loop.simps) (simp only: True if_True Let_def ch st prod.case)
    show ?thesis
    proof (cases "j = length rsi")
      case True
      then show ?thesis unfolding unfold by (simp add: rsi_loop_prefix)
    next
      case False
      with "1.prems"(7) have j: "length (rsi @ [Fin 100]) \<le> j" by simp
      have jl: "j < length (rsi_loop data p (i + 1) (Fin ?a') (Fin 0) (rsi @ [Fin 100]))"
        using "1.prems"(8) unfolding unfold .
      have st': "(Fin ?a', (Fin 0, Fin 100))
          = rsi_step p avgGain avgLoss (js_sub (js_index data (int i)) (js_index data (int i - 1)))"
        unfolding ch st ..
      have i1: "1 \<le> i + 1" by simp
      from "1.IH" [OF True refl refl st' refl "1.prems"(1) "1.prems"(2) i1 "1.prems"(4) a' refl j jl]
      show ?thesis unfolding unfold .
    qed
  next
    case False
    then have "rsi_loop data p i avgGain avgLoss rsi = rsi"
      by (subst rsi_loop.simps) simp
    with "1.prems"(7,8) show ?thesis by simp
  qed
qed

lemma rsi_loop_rising:
  assumes "sorted_wrt (<) rs" and "1 \<le> i" and "1 \<le> p" and "0 < a"
    and "length rsi \<le> j" and "j < length (rsi_loop (map Fin rs) p i (Fin a) (Fin 0) rsi)"
  shows "rsi_loop (map Fin rs) p i (Fin a) (Fin 0) rsi ! j = Fin 100"
  using rsi_loop_rising_aux [OF refl assms(1,2,3) _ refl assms(5,6)] assms(4) by simp

lemma calculateRSI_rising:
  assumes "1 \<le> p" and "sorted_wrt (<) rs" and "1 \<le> j" and "j < length (calculateRSI (map Fin rs) p)"
  shows "calculateRSI (map Fin rs) p ! j = Fin 100"
proof -
  from assms(3,4) have long: "p + 1 < length rs"
    by (simp add: calculateRSI_length)
  obtain g' where g': "rsi_seed_loop (map Fin rs) p 1 (Fin 0) (Fin 0) = (Fin g', Fin 0)" "0 < g'"
    using rsi_seed_loop_rising [OF assms(2), of 1 p 0] assms(1) long by auto
  have a: "0 < g' / real p" using g'(2) assms(1) by simp
  have p0: "real p \<noteq> 0" using assms(1) by simp
  have d: "js_div (Fin g') (num p) = Fin (g' / real p)" "js_div (Fin 0) (num p) = Fin 0"
    using p0 by (simp_all add: num_def)
  have eq: "calculateRSI (map Fin rs) p = rsi_loop (map Fin rs) p (p + 1) (Fin (g' / real p)) (Fin 0) [NaN]"
    unfolding calculateRSI_def Let_def g' prod.case d ..
  show ?thesis
    using rsi_loop_rising [OF assms(2) _ assms(1) a, of "p + 1" "[NaN]" j] assms(3,4)
    unfolding eq by simp
qed

text \<open>
  Claim C4, as amended. At every step of the second loop of \<open>calculateRSI\<close> where the
  smoothed \<open>avgLoss\<close> is exactly zero and the smoothed \<open>avgGain\<close> is positive, the value
  produced is exactly 100; in particular, on a strictly increasing series of finite values
  and a period \<open>p \<ge> 1\<close>, every output after the leading NaN is 100. The value comes out of
  the division \<open>avgGain / avgLoss\<close>, which is \<open>+Infinity\<close> there, carried through
  \<open>100 - 100 / (1 + rs)\<close>: the loop body has no branch on \<open>avgLoss\<close>.
\<close>

theorem calculateRSI_saturation:
  "(rsi_step p avgGain avgLoss change = (avgGain', avgLoss', v)
      \<and> avgLoss' = Fin 0 \<and> js_gt avgGain' (Fin 0) \<longrightarrow> v = Fin 100)
   \<and> (1 \<le> p \<and> sorted_wrt (<) rs \<and> 1 \<le> j \<and> j < length (calculateRSI (map Fin rs) p)
      \<longrightarrow> calculateRSI (map Fin rs) p ! j = Fin 100)"
  using rsi_step_zero_loss calculateRSI_rising by blast

theorem calculateRSI_saturation_witness:
  "rsi_step 1 (Fin 1) (Fin 0) (Fin 1) = (Fin 1, Fin 0, Fin 100)
   \<and> length (calculateRSI (map Fin [1, 2, 3, 4]) 1) = 3
   \<and> calculateRSI (map Fin [1, 2, 3, 4]) 1 ! 1 = Fin 100"
proof -
  have s: "rsi_step 1 (Fin 1) (Fin 0) (Fin 1) = (Fin 1, Fin 0, Fin 100)"
    by (simp add: rsi_step_def Let_def js_gt_def js_sub_def num_def)
  have l: "length (calculateRSI (map Fin [1, 2, 3, 4]) 1) = 3"
    by (simp add: calculateRSI_length)
  show ?thesis
    using calculateRSI_saturation [of 1 "Fin 1" "Fin 0" "Fin 1" "Fin 1" "Fin 0" "Fin 100" "[1, 2, 3, 4]" 1] s l
    by (simp add: js_gt_def)
qed

text \<open>
  Claim C4 as stated fails on a flat series: the smoothed \<open>avgLoss\<close> is exactly zero, and
  so is \<open>avgGain\<close>, the ratio is \<open>0 / 0\<close> and the value produced is NaN, not 100.
\<close>

theorem calculateRSI_flat_counterexample:
  "fst (snd (rsi_step 1 (Fin 0) (Fin 0) (Fin 0))) = Fin 0
   \<and> snd (snd (rsi_step 1 (Fin 0) (Fin 0) (Fin 0))) \<noteq> Fin 100
   \<and> calculateRSI [Fin 5, Fin 5, Fin 5] 1 = [NaN, NaN]"
proof -
  have "rsi_step 1 (Fin 0) (Fin 0) (Fin 0) = (Fin 0, Fin 0, NaN)"
    by (simp add: rsi_step_def Let_def js_gt_def js_sub_def num_def)
  moreover have "calculateRSI [Fin 5, Fin 5, Fin 5] 1 = [NaN, NaN]"
    by code_simp
  ultimately show ?thesis by simp
qed


section \<open>Properties of calculateMACD\<close>

declare macd_loop.simps [simp del] histogram_loop.simps [simp del] tr_loop.simps [simp del]
  bollinger_loop.simps [simp del]

lemma macd_loop_eq:
  "macd_loop data fastEMA slowEMA i acc =
     acc @ map (\<lambda>j. if js_isNaN (js_index fastEMA (int j)) \<or> js_isNaN (js_index slowEMA (int j))
                     then NaN
                     else js_sub (js_index fastEMA (int j)) (js_index slowEMA (int j)))
             [i..<length data]"
proof (induction data fastEMA slowEMA i acc rule: macd_loop.induct)
  case (1 data fastEMA slowEMA i acc)
  show ?case
  proof (cases "i < length data")
    case True
    then have u: "[i..<length data] = i # [i + 1..<length data]"
      by (simp add: upt_conv_Cons)
    show ?thesis
      using True "1.IH"
      by (subst macd_loop.simps) (simp add: u)
  next
    case False
    then show ?thesis by (subst macd_loop.simps) simp
  qed
qed

lemma histogram_loop_length:
  "length (histogram_loop m sg i si h) = length h + (length m - i)"
proof (induction m sg i si h rule: histogram_loop.induct)
  case (1 m sg i si h)
  show ?case
  proof (cases "i < length m")
    case True
    with "1.IH" show ?thesis by (subst histogram_loop.simps) simp
  next
    case False
    then show ?thesis by (subst histogram_loop.simps) simp
  qed
qed

lemma histogram_loop_prefix:
  "j < length h \<Longrightarrow> histogram_loop m sg i si h ! j = h ! j"
proof (induction m sg i si h rule: histogram_loop.induct)
  case (1 m sg i si h)
  show ?case
  proof (cases "i < length m")
    case True
    with "1.IH" "1.prems" show ?thesis
      by (subst histogram_loop.simps) (simp add: nth_append)
  next
    case False
    then show ?thesis by (subst histogram_loop.simps) simp
  qed
qed

lemma histogram_loop_nth:
  assumes "length h = i"
    and "min si (length sg) = min (length (filter (\<lambda>val. \<not> js_isNaN val) (take i m))) (length sg)"
    and "i \<le> j" and "j < length m"
  shows "histogram_loop m sg i si h ! j =
           (if js_isNaN (m ! j) then NaN
            else if length (filter (\<lambda>val. \<not> js_isNaN val) (take j m)) < length sg
              then js_sub (m ! j) (sg ! length (filter (\<lambda>val. \<not> js_isNaN val) (take j m)))
              else NaN)"
  using assms
proof (induction m sg i si h rule: histogram_loop.induct)
  case (1 m sg i si h)
  let ?cnt = "\<lambda>k. length (filter (\<lambda>val. \<not> js_isNaN val) (take k m))"
  from "1.prems" have lt: "i < length m" by simp
  have mi: "js_index m (int i) = m ! i" using lt by (simp add: js_index_def)
  have tk: "take (Suc i) m = take i m @ [m ! i]"
    using lt by (simp add: take_Suc_conv_app_nth)
  have inv: "min si (length sg) = min (?cnt i) (length sg)" by (rule "1.prems"(2))
  show ?case
  proof (cases "j = i")
    case True
    have val: "histogram_loop m sg i si h ! i =
        (if js_isNaN (m ! i) then NaN
         else if si < length sg then js_sub (m ! i) (sg ! si) else NaN)"
      using lt "1.prems"(1)
      by (subst histogram_loop.simps)
        (simp add: mi histogram_loop_prefix nth_append js_index_def)
    from inv have "si < length sg \<longleftrightarrow> ?cnt i < length sg" by linarith
    moreover from inv have "si < length sg \<Longrightarrow> si = ?cnt i" by linarith
    ultimately show ?thesis unfolding True val by auto
  next
    case False
    with "1.prems" have j: "i + 1 \<le> j" by simp
    have len: "length (h @ [x]) = i + 1" for x using "1.prems"(1) by simp
    show ?thesis
    proof (cases "js_isNaN (m ! i)")
      case True
      then have "?cnt (Suc i) = ?cnt i" by (simp add: tk)
      with inv have si: "min si (length sg) = min (?cnt (i + 1)) (length sg)" by simp
      have "histogram_loop m sg i si h = histogram_loop m sg (i + 1) si (h @ [NaN])"
        using lt True by (subst histogram_loop.simps) (simp add: mi)
      with "1.IH"(1) [OF lt _ len si j "1.prems"(4)] True mi show ?thesis by simp
    next
      case nn: False
      then have c: "?cnt (Suc i) = ?cnt i + 1" by (simp add: tk)
      show ?thesis
      proof (cases "si < length sg")
        case True
        from inv True c have si: "min (si + 1) (length sg) = min (?cnt (i + 1)) (length sg)"
          by simp
        have "histogram_loop m sg i si h = histogram_loop m sg (i + 1) (si + 1)
            (h @ [js_sub (js_index m (int i)) (js_index sg (int si))])"
          using lt nn True by (subst histogram_loop.simps) (simp add: mi)
        with "1.IH"(2) [OF lt _ True len si j "1.prems"(4)] nn mi show ?thesis by simp
      next
        case False
        from inv False c have si: "min si (length sg) = min (?cnt (i + 1)) (length sg)"
          by simp
        have "histogram_loop m sg i si h = histogram_loop m sg (i + 1) si (h @ [NaN])"
          using lt nn False by (subst histogram_loop.simps) (simp add: mi)
        with "1.IH"(3) [OF lt _ False len si j "1.prems"(4)] nn mi show ?thesis by simp
      qed
    qed
  qed
qed

lemma filter_take_less:
  assumes "i < length xs" and "P (xs ! i)"
  shows "length (filter P (take i xs)) < length (filter P xs)"
proof -
  have "xs = take i xs @ xs ! i # drop (Suc i) xs"
    using assms(1) by (rule id_take_nth_drop)
  then have "filter P xs = filter P (take i xs) @ filter P (xs ! i # drop (Suc i) xs)"
    by (metis filter_append)
  with assms(2) show ?thesis by simp
qed

lemma calculateMACD_macd_length: "length (macd (calculateMACD s f sl sp)) = length s"
  by (simp add: calculateMACD_def Let_def macd_loop_eq)

lemma calculateMACD_histogram_length: "length (histogram (calculateMACD s f sl sp)) = length s"
  by (simp add: calculateMACD_def Let_def macd_loop_eq histogram_loop_length)

lemma calculateMACD_signal:
  "signal (calculateMACD s f sl sp)
     = calculateEMA (filter (\<lambda>val. \<not> js_isNaN val) (macd (calculateMACD s f sl sp))) sp"
  by (simp add: calculateMACD_def Let_def)

lemma histogram_unfold:
  "histogram (calculateMACD s f sl sp)
     = histogram_loop (macd (calculateMACD s f sl sp)) (signal (calculateMACD s f sl sp)) 0 0 []"
  by (simp add: calculateMACD_def Let_def)

text \<open>
  Claim C1, as amended. At every index \<open>i < len(s)\<close>: when the macd line is NaN at \<open>i\<close>,
  the histogram is NaN at \<open>i\<close>; when the macd line is defined at \<open>i\<close>, the histogram is
  \<open>macd[i] - signal[k]\<close>, where \<open>k\<close> is the number of defined macd values before \<open>i\<close> and
  is an index of the signal line (the next unused signal value, in sequence). The
  converse of the first part is not claimed: the signal line has its own warm-up.
\<close>

theorem calculateMACD_histogram_alignment:
  assumes "i < length s"
  shows "(js_isNaN (macd (calculateMACD s f sl sp) ! i)
            \<longrightarrow> js_isNaN (histogram (calculateMACD s f sl sp) ! i))
    \<and> (\<not> js_isNaN (macd (calculateMACD s f sl sp) ! i) \<longrightarrow>
          length (filter (\<lambda>val. \<not> js_isNaN val) (take i (macd (calculateMACD s f sl sp))))
            < length (signal (calculateMACD s f sl sp))
          \<and> histogram (calculateMACD s f sl sp) ! i
              = js_sub (macd (calculateMACD s f sl sp) ! i)
                  (signal (calculateMACD s f sl sp)
                     ! length (filter (\<lambda>val. \<not> js_isNaN val) (take i (macd (calculateMACD s f sl sp))))))"
proof -
  let ?r = "calculateMACD s f sl sp"
  let ?k = "length (filter (\<lambda>val. \<not> js_isNaN val) (take i (macd ?r)))"
  from assms have i: "i < length (macd ?r)" by (simp add: calculateMACD_macd_length)
  have nth: "histogram ?r ! i =
      (if js_isNaN (macd ?r ! i) then NaN
       else if ?k < length (signal ?r) then js_sub (macd ?r ! i) (signal ?r ! ?k) else NaN)"
    unfolding histogram_unfold
    by (rule histogram_loop_nth [OF _ _ _ i]) simp_all
  have k: "?k < length (signal ?r)" if "\<not> js_isNaN (macd ?r ! i)"
    using filter_take_less [OF i, of "\<lambda>val. \<not> js_isNaN val"] that
    by (simp add: calculateMACD_signal calculateEMA_length)
  show ?thesis using nth k by simp
qed

theorem calculateMACD_histogram_alignment_witness:
  "js_isNaN (macd (calculateMACD [Fin 1, Fin 2, Fin 3] 1 2 1) ! 0)
   \<and> js_isNaN (histogram (calculateMACD [Fin 1, Fin 2, Fin 3] 1 2 1) ! 0)
   \<and> \<not> js_isNaN (macd (calculateMACD [Fin 1, Fin 2, Fin 3] 1 2 1) ! 2)
   \<and> histogram (calculateMACD [Fin 1, Fin 2, Fin 3] 1 2 1) ! 2
       = js_sub (macd (calculateMACD [Fin 1, Fin 2, Fin 3] 1 2 1) ! 2)
           (signal (calculateMACD [Fin 1, Fin 2, Fin 3] 1 2 1) ! 1)"
proof -
  have v: "calculateMACD [Fin 1, Fin 2, Fin 3] 1 2 1
      = \<lparr>macd = [NaN, Fin (1 / 2), Fin (1 / 2)], signal = [Fin (1 / 2), Fin (1 / 2)],
         histogram = [NaN, Fin 0, Fin 0]\<rparr>"
    by code_simp
  show ?thesis
    using calculateMACD_histogram_alignment [of 0 "[Fin 1, Fin 2, Fin 3]" 1 2 1]
      calculateMACD_histogram_alignment [of 2 "[Fin 1, Fin 2, Fin 3]" 1 2 1]
    unfolding v by (simp add: numeral_2_eq_2)
qed

text \<open>
  Claim C1 as stated fails during the warm-up of the signal line: with periods 1, 1 and 2
  the macd line is defined at index 0 and the histogram is NaN there, since the signal
  value consumed is the signal line's own leading NaN.
\<close>

theorem calculateMACD_histogram_warmup_counterexample:
  "\<not> js_isNaN (macd (calculateMACD [Fin 1, Fin 2, Fin 3] 1 1 2) ! 0)
   \<and> js_isNaN (histogram (calculateMACD [Fin 1, Fin 2, Fin 3] 1 1 2) ! 0)"
proof -
  have "calculateMACD [Fin 1, Fin 2, Fin 3] 1 1 2
      = \<lparr>macd = [Fin 0, Fin 0, Fin 0], signal = [NaN, Fin 0, Fin 0],
         histogram = [NaN, Fin 0, Fin 0]\<rparr>"
    by code_simp
  then show ?thesis by simp
qed


section \<open>Lengths of the returned series\<close>

lemma tr_loop_length: "length (tr_loop data i tr) = length tr + (length data - i)"
proof (induction data i tr rule: tr_loop.induct)
  case (1 data i tr)
  show ?case
  proof (cases "i < length data")
    case True
    with "1.IH" show ?thesis by (subst tr_loop.simps) (auto simp: Let_def)
  next
    case False
    then show ?thesis by (subst tr_loop.simps) simp
  qed
qed

lemma calculateATR_length: "length (calculateATR cs p) = length cs"
  by (simp add: calculateATR_def calculateEMA_length tr_loop_length)

lemma bollinger_loop_eq:
  "bollinger_loop data period stdDev sma i bands =
     \<lparr>upper = upper bands @
        map (\<lambda>j. if int j < int period - 1 then NaN
                  else js_add (js_index sma (int j))
                         (js_mul (standardDeviation (js_slice data (int j - int period + 1) (int j + 1))
                                    (js_index sma (int j)) period) stdDev))
          [i..<length data],
      middle = middle bands @
        map (\<lambda>j. if int j < int period - 1 then NaN else js_index sma (int j)) [i..<length data],
      lower = lower bands @
        map (\<lambda>j. if int j < int period - 1 then NaN
                  else js_sub (js_index sma (int j))
                         (js_mul (standardDeviation (js_slice data (int j - int period + 1) (int j + 1))
                                    (js_index sma (int j)) period) stdDev))
          [i..<length data]\<rparr>"
proof (induction data period stdDev sma i bands rule: bollinger_loop.induct)
  case (1 data period stdDev sma i bands)
  show ?case
  proof (cases "i < length data")
    case True
    then have u: "[i..<length data] = i # [i + 1..<length data]"
      by (simp add: upt_conv_Cons)
    show ?thesis
      using True "1.IH"
      by (subst bollinger_loop.simps) (simp add: u Let_def)
  next
    case False
    then show ?thesis by (subst bollinger_loop.simps) simp
  qed
qed

lemma calculateBollingerBands_lengths:
  "length (upper (calculateBollingerBands s p m)) = length s"
  "length (middle (calculateBollingerBands s p m)) = length s"
  "length (lower (calculateBollingerBands s p m)) = length s"
  by (simp_all add: calculateBollingerBands_def bollinger_loop_eq)

text \<open>
  Claim C2, as amended. The macd line and the histogram returned by \<open>calculateMACD\<close> have
  the length of the input; the signal line has as many entries as the macd line has
  defined values, which is at most the length of the input. The series returned by
  \<open>calculateSMA\<close>, \<open>calculateEMA\<close>, \<open>calculateBollingerBands\<close> and \<open>calculateATR\<close> have the
  length of their source series.
\<close>

theorem series_lengths:
  "length (macd (calculateMACD s f sl sp)) = length s
   \<and> length (histogram (calculateMACD s f sl sp)) = length s
   \<and> length (signal (calculateMACD s f sl sp))
       = length (filter (\<lambda>val. \<not> js_isNaN val) (macd (calculateMACD s f sl sp)))
   \<and> length (signal (calculateMACD s f sl sp)) \<le> length s
   \<and> length (calculateSMA s p) = length s
   \<and> length (calculateEMA s p) = length s
   \<and> length (upper (calculateBollingerBands s p m)) = length s
   \<and> length (middle (calculateBollingerBands s p m)) = length s
   \<and> length (lower (calculateBollingerBands s p m)) = length s
   \<and> length (calculateATR cs p) = length cs"
proof -
  have sg: "length (signal (calculateMACD s f sl sp))
       = length (filter (\<lambda>val. \<not> js_isNaN val) (macd (calculateMACD s f sl sp)))"
    by (simp add: calculateMACD_signal calculateEMA_length)
  have "length (filter (\<lambda>val. \<not> js_isNaN val) (macd (calculateMACD s f sl sp)))
      \<le> length (macd (calculateMACD s f sl sp))"
    by (rule length_filter_le)
  then have le: "length (signal (calculateMACD s f sl sp)) \<le> length s"
    unfolding sg calculateMACD_macd_length .
  show ?thesis
    using sg le
    by (simp add: calculateMACD_macd_length calculateMACD_histogram_length calculateSMA_length
        calculateEMA_length calculateBollingerBands_lengths calculateATR_length)
qed

theorem series_lengths_witness:
  "length (macd (calculateMACD [Fin 1, Fin 2, Fin 3] 1 2 1)) = 3
   \<and> length (histogram (calculateMACD [Fin 1, Fin 2, Fin 3] 1 2 1)) = 3
   \<and> length (signal (calculateMACD [Fin 1, Fin 2, Fin 3] 1 2 1)) \<le> 3
   \<and> length (calculateEMA [Fin 1, Fin 2, Fin 3] 2) = 3"
  using series_lengths [of "[Fin 1, Fin 2, Fin 3]" 1 2 1 2 "Fin 2" "[]"]
  by simp

text \<open>
  Claim C2 as stated fails for the signal line, which is the EMA of the defined macd values
  only (two values for three inputs here), and for \<open>calculateRSI\<close>, which returns two
  values for three inputs.
\<close>

theorem signal_length_counterexample:
  "length (signal (calculateMACD [Fin 1, Fin 2, Fin 3] 1 2 1)) \<noteq> length [Fin 1, Fin 2, Fin 3]
   \<and> length (calculateRSI [Fin 1, Fin 2, Fin 3] 1) \<noteq> length [Fin 1, Fin 2, Fin 3]"
proof -
  have "calculateMACD [Fin 1, Fin 2, Fin 3] 1 2 1
      = \<lparr>macd = [NaN, Fin (1 / 2), Fin (1 / 2)], signal = [Fin (1 / 2), Fin (1 / 2)],
         histogram = [NaN, Fin 0, Fin 0]\<rparr>"
    by code_simp
  then show ?thesis by (simp add: calculateRSI_length)
qed


section \<open>Properties of calculateBollingerBands\<close>

lemma calculateSMA_eq:
  "calculateSMA s p =
     map (\<lambda>j. if int j < int p - 1 then NaN
               else js_div (foldl js_add (Fin 0) (js_slice s (int j - int p + 1) (int j + 1))) (num p))
       [0..<length s]"
  by (simp add: calculateSMA_def sma_loop_eq)

lemma calculateBollingerBands_middle:
  "middle (calculateBollingerBands s p m) = calculateSMA s p"
proof (rule nth_equalityI)
  show "length (middle (calculateBollingerBands s p m)) = length (calculateSMA s p)"
    by (simp add: calculateBollingerBands_lengths calculateSMA_length)
next
  fix i assume "i < length (middle (calculateBollingerBands s p m))"
  then have i: "i < length s" by (simp add: calculateBollingerBands_lengths)
  then have "js_index (calculateSMA s p) (int i) = calculateSMA s p ! i"
    by (simp add: js_index_nat calculateSMA_length)
  with i show "middle (calculateBollingerBands s p m) ! i = calculateSMA s p ! i"
    by (simp add: calculateBollingerBands_def bollinger_loop_eq calculateSMA_nth)
qed

lemma calculateBollingerBands_nth:
  assumes "i < length s"
  shows "upper (calculateBollingerBands s p m) ! i =
           (if int i < int p - 1 then NaN
            else js_add (calculateSMA s p ! i)
                   (js_mul (standardDeviation (take p (drop (i + 1 - p) s)) (calculateSMA s p ! i) p) m))"
    and "lower (calculateBollingerBands s p m) ! i =
           (if int i < int p - 1 then NaN
            else js_sub (calculateSMA s p ! i)
                   (js_mul (standardDeviation (take p (drop (i + 1 - p) s)) (calculateSMA s p ! i) p) m))"
proof -
  have ix: "js_index (calculateSMA s p) (int i) = calculateSMA s p ! i"
    using assms by (simp add: js_index_nat calculateSMA_length)
  show "upper (calculateBollingerBands s p m) ! i =
           (if int i < int p - 1 then NaN
            else js_add (calculateSMA s p ! i)
                   (js_mul (standardDeviation (take p (drop (i + 1 - p) s)) (calculateSMA s p ! i) p) m))"
    using assms by (simp add: calculateBollingerBands_def bollinger_loop_eq ix js_slice_window)
  show "lower (calculateBollingerBands s p m) ! i =
           (if int i < int p - 1 then NaN
            else js_sub (calculateSMA s p ! i)
                   (js_mul (standardDeviation (take p (drop (i + 1 - p) s)) (calculateSMA s p ! i) p) m))"
    using assms by (simp add: calculateBollingerBands_def bollinger_loop_eq ix js_slice_window)
qed

text \<open>
  Claim C10, as amended. For every series, period and multiplier, the middle band is
  \<open>calculateSMA(s, p)\<close> pointwise and all three bands are NaN at the indices \<open>i < p - 1\<close>.
  At every index \<open>i \<ge> p - 1\<close> the upper band is \<open>middle[i] + sd * m\<close> and the lower band is
  \<open>middle[i] - sd * m\<close>, the same offset \<open>sd * m\<close> added and subtracted, where \<open>sd\<close> is the
  population deviation of the trailing window of \<open>p\<close> values: the square root of the sum
  (from the left, starting at 0) of the squared differences from \<open>middle[i]\<close>, divided by
  \<open>p\<close>. Each operation is the code's own. The two differences \<open>upper - middle\<close> and
  \<open>middle - lower\<close> are not stated equal, and the bands are not stated defined from
  \<open>p - 1\<close> on: in the 64-bit format a sum and a difference are each rounded on their own
  and can overflow.
\<close>

theorem calculateBollingerBands_spec:
  "middle (calculateBollingerBands s p m) = calculateSMA s p
   \<and> (i < length s \<and> int i < int p - 1 \<longrightarrow>
        js_isNaN (upper (calculateBollingerBands s p m) ! i)
        \<and> js_isNaN (middle (calculateBollingerBands s p m) ! i)
        \<and> js_isNaN (lower (calculateBollingerBands s p m) ! i))
   \<and> (i < length s \<and> int p - 1 \<le> int i \<longrightarrow>
        (let b = calculateBollingerBands s p m;
             window = take p (drop (i + 1 - p) s);
             mean = middle b ! i;
             squaredDiffs = map (\<lambda>value. js_pow2 (js_sub value mean)) window;
             sd = js_sqrt (js_div (foldl js_add (Fin 0) squaredDiffs) (num p))
         in upper b ! i = js_add mean (js_mul sd m)
            \<and> lower b ! i = js_sub mean (js_mul sd m)))"
proof -
  let ?b = "calculateBollingerBands s p m"
  have warm: "js_isNaN (upper ?b ! i) \<and> js_isNaN (middle ?b ! i) \<and> js_isNaN (lower ?b ! i)"
    if "i < length s" "int i < int p - 1"
    using that
    by (simp add: calculateBollingerBands_nth calculateBollingerBands_middle calculateSMA_nth)
  have bands: "upper ?b ! i
        = js_add (middle ?b ! i)
            (js_mul (js_sqrt (js_div (foldl js_add (Fin 0)
                (map (\<lambda>value. js_pow2 (js_sub value (middle ?b ! i)))
                   (take p (drop (i + 1 - p) s)))) (num p))) m)
      \<and> lower ?b ! i
        = js_sub (middle ?b ! i)
            (js_mul (js_sqrt (js_div (foldl js_add (Fin 0)
                (map (\<lambda>value. js_pow2 (js_sub value (middle ?b ! i)))
                   (take p (drop (i + 1 - p) s)))) (num p))) m)"
    if "i < length s" "int p - 1 \<le> int i"
  proof -
    from that(2) have ge: "\<not> int i < int p - 1" by simp
    show ?thesis
      unfolding calculateBollingerBands_nth [OF that(1)] if_not_P [OF ge]
        calculateBollingerBands_middle standardDeviation_def Let_def
      by simp
  qed
  show ?thesis
    using warm bands by (simp add: calculateBollingerBands_middle Let_def)
qed

theorem calculateBollingerBands_spec_witness:
  "middle (calculateBollingerBands [Fin 1, Fin 3] 2 (Fin 2)) = calculateSMA [Fin 1, Fin 3] 2
   \<and> js_isNaN (upper (calculateBollingerBands [Fin 1, Fin 3] 2 (Fin 2)) ! 0)
   \<and> js_isNaN (lower (calculateBollingerBands [Fin 1, Fin 3] 2 (Fin 2)) ! 0)
   \<and> middle (calculateBollingerBands [Fin 1, Fin 3] 2 (Fin 2)) ! 1 = Fin 2
   \<and> upper (calculateBollingerBands [Fin 1, Fin 3] 2 (Fin 2)) ! 1 = Fin 4
   \<and> lower (calculateBollingerBands [Fin 1, Fin 3] 2 (Fin 2)) ! 1 = Fin 0"
proof -
  have mid: "middle (calculateBollingerBands [Fin 1, Fin 3] 2 (Fin 2)) ! 1 = Fin 2"
    by (simp add: calculateBollingerBands_middle calculateSMA_nth num_def)
  have win: "take 2 (drop (1 + 1 - 2) [Fin 1, Fin 3]) = [Fin 1, Fin 3]"
    by simp
  show ?thesis
    using calculateBollingerBands_spec [of "[Fin 1, Fin 3]" 2 "Fin 2" 0]
      calculateBollingerBands_spec [of "[Fin 1, Fin 3]" 2 "Fin 2" 1]
    unfolding Let_def mid win
    by (simp add: js_sub_def num_def)
qed

text \<open>
  Claim C10 as stated fails in its last part: a band can be NaN at an index that is not
  below \<open>p - 1\<close>, when the window holds a NaN, and when the period is 0 (the mean is then
  \<open>0 / 0\<close>).
\<close>

theorem calculateBollingerBands_defined_counterexample:
  "js_isNaN (upper (calculateBollingerBands [NaN] 1 (Fin 2)) ! 0) \<and> \<not> (int 0 < int 1 - 1)
   \<and> js_isNaN (upper (calculateBollingerBands [Fin 1] 0 (Fin 2)) ! 0) \<and> \<not> (int 0 < int 0 - 1)"
  by (simp add: calculateBollingerBands_nth calculateSMA_nth num_def)

end
